theory Spec2Isabelle
  imports Complex_Main "HOL-Library.Multiset"
begin

section \<open>The vocabulary drill of app.js\<close>

text \<open>
  A shallow embedding of \<^verbatim>\<open>src/app.js\<close>. JavaScript numbers that hold counters are
  natural numbers or integers; numbers that hold weights are reals (exact arithmetic
  in place of IEEE doubles) or \<^verbatim>\<open>NaN\<close>. \<^verbatim>\<open>Math.random()\<close> reads an explicit stream of reals; the
  ECMAScript contract that each value lies in \<open>[0, 1)\<close> is the predicate \<open>rand_ok\<close>.
  \<^verbatim>\<open>Date.now()\<close> reads the clock of the environment, in milliseconds; the functions that
  compute a weight take the value read as an argument. An uncaught exception is a value
  of type \<open>error\<close>; the state that the throwing handler leaves behind is not kept. Texts that are only shown (feedback, score display, button
  colours) are left out; what decides which handler a click reaches is kept.
\<close>

subsection \<open>Constants\<close>

definition TARGET_SETS :: nat where
  "TARGET_SETS = 20"

definition RECENT_PENALTY_HOURS :: real where
  "RECENT_PENALTY_HOURS = 24"

definition NEW_ITEM_BONUS :: real where
  "NEW_ITEM_BONUS = 3"

definition ERROR_WEIGHT :: real where
  "ERROR_WEIGHT = 4"

definition RECENT_MIN_FACTOR :: real where
  "RECENT_MIN_FACTOR = 1 / 4"

subsection \<open>Data\<close>

text \<open>An entry of \<^verbatim>\<open>vocab.json\<close>, with the fields the code reads.\<close>

record item =
  item_id :: string
  article :: string
  lemma_de :: string
  display :: string
  tags :: "string list"
  clues_de :: "string list"

text \<open>The object that \<^verbatim>\<open>defaultStat()\<close> creates.\<close>

record stat =
  seen :: nat
  correctMeaning :: nat
  wrongMeaning :: nat
  correctArticle :: nat
  wrongArticle :: nat
  lastSeenAt :: int

text \<open>
  \<^verbatim>\<open>state.stats\<close> is a plain object. The mapping holds the records it owns. A lookup
  \<^verbatim>\<open>state.stats[id]\<close> of a name it does not own goes on to its prototype, so that it
  yields a record, or a truthy value that is no record (a built-in method such as
  \<^verbatim>\<open>constructor\<close>, or the prototype itself under \<^verbatim>\<open>__proto__\<close>), or nothing. On a value
  of the second kind every counter reads \<^verbatim>\<open>undefined\<close> or \<^verbatim>\<open>NaN\<close>, and stays so when
  the code adds \<open>1\<close> to it.
\<close>

type_synonym stats_map = "string \<rightharpoonup> stat"

datatype statval = Stat stat | Foreign

text \<open>The names that \<^verbatim>\<open>Object.prototype\<close> defines, each with a truthy value.\<close>

definition objectPrototypeNames :: "string list" where
  "objectPrototypeNames =
     [''constructor'', ''__defineGetter__'', ''__defineSetter__'', ''hasOwnProperty'',
      ''__lookupGetter__'', ''__lookupSetter__'', ''isPrototypeOf'', ''propertyIsEnumerable'',
      ''toString'', ''valueOf'', ''__proto__'', ''toLocaleString'']"

datatype phase = Meaning | Article

text \<open>An answer option of the meaning phase, as \<^verbatim>\<open>buildMeaningChoices\<close> builds it.\<close>

record choice =
  choice_id :: string
  choice_display :: string
  isCorrect :: bool

datatype error = TypeError

subsection \<open>The random source\<close>

type_synonym rng = "nat \<Rightarrow> real"

definition rand_ok :: "rng \<Rightarrow> bool" where
  "rand_ok rs = (\<forall>n. 0 \<le> rs n \<and> rs n < 1)"

definition rng_next :: "rng \<Rightarrow> rng" where
  "rng_next rs = (\<lambda>n. rs (Suc n))"

subsection \<open>shuffle\<close>

text \<open>
  The loop of \<^verbatim>\<open>shuffle\<close> runs \<open>i\<close> from \<open>length a - 1\<close> down to \<open>1\<close>; the
  destructuring assignment swaps \<open>a[i]\<close> and \<open>a[j]\<close>, both read before either is
  written.
\<close>

fun shuffleLoop :: "nat \<Rightarrow> 'a list \<Rightarrow> rng \<Rightarrow> 'a list \<times> rng" where
  "shuffleLoop 0 a rs = (a, rs)"
| "shuffleLoop (Suc n) a rs =
     (let i = Suc n;
          j = nat \<lfloor>rs 0 * real (i + 1)\<rfloor>
      in shuffleLoop n (a[i := a ! j, j := a ! i]) (rng_next rs))"

definition shuffle :: "'a list \<Rightarrow> rng \<Rightarrow> 'a list \<times> rng" where
  "shuffle arr rs = shuffleLoop (length arr - 1) arr rs"

fun intersectTags :: "string list \<Rightarrow> string list \<Rightarrow> bool" where
  "intersectTags aTags [] = False"
| "intersectTags aTags (t # bTags) = (if t \<in> set aTags then True else intersectTags aTags bTags)"

subsection \<open>Numbers that may be NaN\<close>

text \<open>
  The arithmetic of the sampler on weights: \<open>+\<close>, \<open>-\<close> and \<open>*\<close> give \<^verbatim>\<open>NaN\<close> as soon as
  an operand is \<^verbatim>\<open>NaN\<close>, a comparison with \<^verbatim>\<open>NaN\<close> is false, and \<^verbatim>\<open>Math.max(0, w)\<close> is
  \<^verbatim>\<open>NaN\<close> for \<^verbatim>\<open>NaN\<close>.
\<close>

datatype jsnum = Num real | NaN

instantiation jsnum :: "{plus, minus, times, ord}"
begin

fun plus_jsnum :: "jsnum \<Rightarrow> jsnum \<Rightarrow> jsnum" where
  "plus_jsnum (Num a) (Num b) = Num (a + b)"
| "plus_jsnum x y = NaN"

fun minus_jsnum :: "jsnum \<Rightarrow> jsnum \<Rightarrow> jsnum" where
  "minus_jsnum (Num a) (Num b) = Num (a - b)"
| "minus_jsnum x y = NaN"

fun times_jsnum :: "jsnum \<Rightarrow> jsnum \<Rightarrow> jsnum" where
  "times_jsnum (Num a) (Num b) = Num (a * b)"
| "times_jsnum x y = NaN"

fun less_eq_jsnum :: "jsnum \<Rightarrow> jsnum \<Rightarrow> bool" where
  "less_eq_jsnum (Num a) (Num b) = (a \<le> b)"
| "less_eq_jsnum x y = False"

fun less_jsnum :: "jsnum \<Rightarrow> jsnum \<Rightarrow> bool" where
  "less_jsnum (Num a) (Num b) = (a < b)"
| "less_jsnum x y = False"

instance ..

end

fun Math_max0 :: "jsnum \<Rightarrow> jsnum" where
  "Math_max0 (Num x) = Num (max 0 x)"
| "Math_max0 NaN = NaN"

subsection \<open>Weighted sampling without replacement\<close>

text \<open>The inner \<^verbatim>\<open>for(; idx<pool.length; idx++)\<close> loop: the index at which it stops.\<close>

fun walk :: "jsnum \<Rightarrow> jsnum list \<Rightarrow> nat \<Rightarrow> nat" where
  "walk r [] idx = idx"
| "walk r (w # ws) idx =
     (let r' = r - Math_max0 w in if r' \<le> Num 0 then idx else walk r' ws (idx + 1))"

definition weightSum :: "jsnum list \<Rightarrow> jsnum" where
  "weightSum weights = foldl (\<lambda>s w. s + Math_max0 w) (Num 0) weights"

text \<open>
  One pass of the outer loop body on a non-empty pool: the chosen element, the pool
  without it, and the random source after the pass.
\<close>

definition drawStep :: "('a \<Rightarrow> jsnum) \<Rightarrow> 'a list \<Rightarrow> rng \<Rightarrow> 'a \<times> 'a list \<times> rng" where
  "drawStep weightFn pool rs =
     (let weights = map weightFn pool;
          sum = weightSum weights
      in if sum \<le> Num 0 then (hd pool, tl pool, rs)
         else
           let r = Num (rs 0) * sum;
               idx = walk r weights 0;
               pos = min idx (length pool - 1)
           in (pool ! pos, take pos pool @ drop (pos + 1) pool, rng_next rs))"

function pickLoop ::
  "('a \<Rightarrow> jsnum) \<Rightarrow> int \<Rightarrow> nat \<Rightarrow> 'a list \<Rightarrow> 'a list \<Rightarrow> rng \<Rightarrow> 'a list \<times> rng" where
  "pickLoop weightFn k i pool picked rs =
     (if int i < k \<and> length pool > 0
      then (case drawStep weightFn pool rs of
              (chosen, pool', rs') \<Rightarrow> pickLoop weightFn k (i + 1) pool' (picked @ [chosen]) rs')
      else (picked, rs))"
  by pat_completeness auto

lemma length_drawStep:
  "pool \<noteq> [] \<Longrightarrow> length (fst (snd (drawStep weightFn pool rs))) < length pool"
  by (cases pool) (auto simp: drawStep_def Let_def min_def)

termination pickLoop
  apply (relation "measure (\<lambda>(weightFn, k, i, pool, picked, rs). length pool)")
   apply simp
  apply auto
  apply (metis length_drawStep fst_conv snd_conv)
  done

declare pickLoop.simps [simp del]

definition pickWeightedUnique ::
  "'a list \<Rightarrow> int \<Rightarrow> ('a \<Rightarrow> jsnum) \<Rightarrow> rng \<Rightarrow> 'a list \<times> rng" where
  "pickWeightedUnique items k weightFn rs = pickLoop weightFn k 0 items [] rs"

subsection \<open>Statistics and the weight of an item\<close>

definition defaultStat :: stat where
  "defaultStat =
     \<lparr>seen = 0, correctMeaning = 0, wrongMeaning = 0, correctArticle = 0, wrongArticle = 0,
      lastSeenAt = 0\<rparr>"

text \<open>
  \<^verbatim>\<open>ensureStat\<close> tests \<^verbatim>\<open>state.stats[id]\<close> for truth. \<open>inh\<close> lists the names under which
  the prototype of \<^verbatim>\<open>state.stats\<close> holds a truthy value. A record that the object owns
  is returned; a name that it does not own but inherits gives the inherited value and
  no record is created; any other name gets a fresh default record.
\<close>

definition ensureStat :: "string list \<Rightarrow> stats_map \<Rightarrow> string \<Rightarrow> statval \<times> stats_map" where
  "ensureStat inh m i =
     (case m i of
        Some st \<Rightarrow> (Stat st, m)
      | None \<Rightarrow>
          if i \<in> set inh then (Foreign, m) else (Stat defaultStat, m(i \<mapsto> defaultStat)))"

definition errorRate :: "stat \<Rightarrow> real" where
  "errorRate st =
     (let total = correctMeaning st + wrongMeaning st + correctArticle st + wrongArticle st;
          wrong = wrongMeaning st + wrongArticle st
      in if total = 0 then 0 else real wrong / real total)"

definition recencyFactor :: "stat \<Rightarrow> int \<Rightarrow> real" where
  "recencyFactor st now =
     (if lastSeenAt st = 0 then 1
      else
        let hours = real_of_int (now - lastSeenAt st) / (1000 * 60 * 60)
        in if hours \<ge> RECENT_PENALTY_HOURS then 1
           else
             let x = hours / RECENT_PENALTY_HOURS
             in max RECENT_MIN_FACTOR x)"

definition newBonus :: "stat \<Rightarrow> real" where
  "newBonus st = (if seen st = 0 then NEW_ITEM_BONUS else 1)"

definition errBoost :: "stat \<Rightarrow> real" where
  "errBoost st = 1 + errorRate st * ERROR_WEIGHT"

text \<open>
  \<^verbatim>\<open>itemWeight\<close> reads the record through \<^verbatim>\<open>ensureStat\<close>. Its only caller,
  \<^verbatim>\<open>buildRoundQueue\<close>, has run \<^verbatim>\<open>ensureStat\<close> on every catalog item before, so the
  mapping is not extended here and the function returns the weight alone. On an
  inherited value the counters are \<^verbatim>\<open>undefined\<close> or \<^verbatim>\<open>NaN\<close>: the total is \<^verbatim>\<open>NaN\<close>, which
  is not \<open>0\<close>, the error rate is \<^verbatim>\<open>NaN\<close>, and so is the product.
\<close>

definition itemWeight :: "string list \<Rightarrow> stats_map \<Rightarrow> int \<Rightarrow> item \<Rightarrow> jsnum" where
  "itemWeight inh m now it =
     (case fst (ensureStat inh m (item_id it)) of
        Stat st \<Rightarrow>
          let er = errorRate st;
              rec = recencyFactor st now
          in Num (newBonus st * (1 + er * ERROR_WEIGHT) * rec)
      | Foreign \<Rightarrow> NaN)"

subsection \<open>The answer options of the meaning phase\<close>

definition sameTag :: "item list \<Rightarrow> item \<Rightarrow> item list" where
  "sameTag pool it =
     filter (\<lambda>x. item_id x \<noteq> item_id it \<and> intersectTags (tags x) (tags it)) pool"

definition candidates :: "item list \<Rightarrow> item \<Rightarrow> item list" where
  "candidates pool it =
     (if length (sameTag pool it) \<ge> 10 then sameTag pool it
      else sameTag pool it @ filter (\<lambda>x. item_id x \<noteq> item_id it) pool)"

definition diffArticle :: "item list \<Rightarrow> item \<Rightarrow> item list" where
  "diffArticle pool it = filter (\<lambda>x. article x \<noteq> article it) (candidates pool it)"

definition pref :: "item list \<Rightarrow> item \<Rightarrow> item list" where
  "pref pool it =
     (if length (diffArticle pool it) \<ge> 2 then diffArticle pool it else candidates pool it)"

text \<open>
  \<^verbatim>\<open>Map.prototype.set\<close>: a key that is present keeps its place and takes the new value,
  a new key goes to the end. \<^verbatim>\<open>byId\<close> is the list of values of
  \<^verbatim>\<open>new Map(ds.map(d => [d.id, d]))\<close>.
\<close>

fun mapSet :: "(string \<times> 'v) list \<Rightarrow> string \<Rightarrow> 'v \<Rightarrow> (string \<times> 'v) list" where
  "mapSet [] k v = [(k, v)]"
| "mapSet ((k', v') # kvs) k v = (if k' = k then (k, v) # kvs else (k', v') # mapSet kvs k v)"

definition byId :: "item list \<Rightarrow> item list" where
  "byId ds = map snd (foldl (\<lambda>m d. mapSet m (item_id d) d) [] ds)"

definition firstDistractors :: "item list \<Rightarrow> item \<Rightarrow> rng \<Rightarrow> item list \<times> rng" where
  "firstDistractors pool it rs =
     (case shuffle (pref pool it) rs of (sh, rs') \<Rightarrow> (take 2 (byId (take 2 sh)), rs'))"

definition rest :: "item list \<Rightarrow> item \<Rightarrow> item list \<Rightarrow> item list" where
  "rest pool it ds =
     filter (\<lambda>x. item_id x \<noteq> item_id it \<and> \<not> list_ex (\<lambda>d. item_id d = item_id x) ds) pool"

definition distractors :: "item list \<Rightarrow> item \<Rightarrow> rng \<Rightarrow> item list \<times> rng" where
  "distractors pool it rs =
     (case firstDistractors pool it rs of
        (ds, rs') \<Rightarrow>
          if length ds < 2
          then (case shuffle (rest pool it ds) rs' of
                  (sh, rs'') \<Rightarrow> (ds @ take (2 - length ds) sh, rs''))
          else (ds, rs'))"

definition toChoice :: "item \<Rightarrow> item \<Rightarrow> choice" where
  "toChoice it x =
     \<lparr>choice_id = item_id x, choice_display = display x, isCorrect = (item_id x = item_id it)\<rparr>"

definition buildMeaningChoices :: "item list \<Rightarrow> item \<Rightarrow> rng \<Rightarrow> choice list \<times> rng" where
  "buildMeaningChoices pool it rs =
     (case distractors pool it rs of
        (ds, rs') \<Rightarrow>
          (case shuffle (it # ds) rs' of (sh, rs'') \<Rightarrow> (map (toChoice it) sh, rs'')))"


definition topUp :: "item list \<Rightarrow> item \<Rightarrow> rng \<Rightarrow> item list" where
  "topUp pool it rs =
     (case firstDistractors pool it rs of
        (ds, rs') \<Rightarrow> if length ds < 2 then take (2 - length ds) (fst (shuffle (rest pool it ds) rs')) else [])"

subsection \<open>The application state and its browser environment\<close>

text \<open>The global \<^verbatim>\<open>state\<close> object; \<open>done_count\<close> is its field \<^verbatim>\<open>done\<close>.\<close>

record state =
  vocab :: "item list"
  stats :: stats_map
  target :: nat
  done_count :: nat
  score :: int
  streak :: nat
  phase :: phase
  queue :: "item list"
  current :: "item option"
  meaningChoices :: "choice list"
  lock :: bool
  currentClue :: string

text \<open>A value that \<^verbatim>\<open>JSON.parse\<close> returns.\<close>

datatype jsval =
  JNull | JBool bool | JNum real | JStr string | JArr "jsval list" | JObj "(string \<times> jsval) list"

text \<open>The choice buttons that the last \<^verbatim>\<open>render\<close> put into \<^verbatim>\<open>#choices\<close>.\<close>

datatype buttons = NoButtons | MeaningButtons "choice list" | ArticleButtons

text \<open>
  What the code reaches outside \<^verbatim>\<open>state\<close>: the names that \<^verbatim>\<open>state.stats\<close> inherits
  with a truthy value, the clock, the random source,
  \<^verbatim>\<open>localStorage\<close> (the text under \<^verbatim>\<open>STORAGE_KEY\<close>, whether reading or writing it
  throws, and the texts each \<^verbatim>\<open>setItem\<close> call was given), the two \<^verbatim>\<open>JSON\<close> functions
  (\<open>None\<close> is a \<^verbatim>\<open>SyntaxError\<close>), the parts of the page that decide which handler a click
  reaches, and the number of \<^verbatim>\<open>setTimeout(render, 320)\<close> calls that have not fired yet.
\<close>

record world = state +
  inherited :: "string list"
  clock :: int
  random :: rng
  storage :: "string option"
  getItemThrows :: bool
  setItemThrows :: bool
  setItemCalls :: "string list"
  JSON_stringify :: "stats_map \<Rightarrow> string"
  JSON_parse :: "string \<Rightarrow> jsval option"
  buttons :: buttons
  choicesDisabled :: bool
  btnNextDisabled :: bool
  phaseLabel :: string
  renderTimers :: nat

subsection \<open>Persistence of the statistics\<close>

fun truthy :: "jsval \<Rightarrow> bool" where
  "truthy JNull = False"
| "truthy (JBool b) = b"
| "truthy (JNum x) = (x \<noteq> 0)"
| "truthy (JStr s) = (s \<noteq> [])"
| "truthy (JArr vs) = True"
| "truthy (JObj kvs) = True"

text \<open>\<^verbatim>\<open>typeof v === "object"\<close>, which holds of \<^verbatim>\<open>null\<close> and of arrays too.\<close>

fun typeof_object :: "jsval \<Rightarrow> bool" where
  "typeof_object JNull = True"
| "typeof_object (JArr vs) = True"
| "typeof_object (JObj kvs) = True"
| "typeof_object v = False"

definition loadStats :: "world \<Rightarrow> jsval" where
  "loadStats w =
     (if getItemThrows w then JObj []
      else
        (case storage w of
           None \<Rightarrow> JObj []
         | Some raw \<Rightarrow>
             if raw = [] then JObj []
             else
               (case JSON_parse w raw of
                  None \<Rightarrow> JObj []
                | Some parsed \<Rightarrow>
                    if truthy parsed \<and> typeof_object parsed then parsed else JObj [])))"

definition saveStats :: "world \<Rightarrow> world" where
  "saveStats w =
     (let text = JSON_stringify w (stats w);
          w' = w\<lparr>setItemCalls := setItemCalls w @ [text]\<rparr>
      in if setItemThrows w then w' else w'\<lparr>storage := Some text\<rparr>)"

text \<open>
  The two assignments of \<^verbatim>\<open>recordSeen\<close> land on the value that \<^verbatim>\<open>ensureStat\<close> returned.
  On an inherited value they do not touch \<^verbatim>\<open>state.stats\<close>, with one exception: under the
  name \<^verbatim>\<open>__proto__\<close> the value is the prototype itself, which then has \<^verbatim>\<open>seen\<close> equal to
  \<^verbatim>\<open>NaN\<close> (falsy) and \<^verbatim>\<open>lastSeenAt\<close> equal to the clock, so that the name
  \<^verbatim>\<open>lastSeenAt\<close> is inherited with a truthy value from then on, unless the clock is \<open>0\<close>.
\<close>

definition writeSeen :: "string \<Rightarrow> int \<Rightarrow> string list \<Rightarrow> string list" where
  "writeSeen itemId now inh =
     (if itemId = ''__proto__''
      then (if now \<noteq> 0 then ''lastSeenAt'' # inh else removeAll ''lastSeenAt'' inh)
      else inh)"

definition recordSeen :: "string \<Rightarrow> world \<Rightarrow> world" where
  "recordSeen itemId w =
     (case ensureStat (inherited w) (stats w) itemId of
        (Stat st, m) \<Rightarrow>
          saveStats (w\<lparr>stats := m(itemId \<mapsto> st\<lparr>seen := seen st + 1, lastSeenAt := clock w\<rparr>)\<rparr>)
      | (Foreign, m) \<Rightarrow>
          saveStats (w\<lparr>stats := m, inherited := writeSeen itemId (clock w) (inherited w)\<rparr>))"

definition recordResult :: "string \<Rightarrow> phase \<Rightarrow> bool \<Rightarrow> world \<Rightarrow> world" where
  "recordResult itemId ph correct w =
     (case ensureStat (inherited w) (stats w) itemId of
        (Stat st, m) \<Rightarrow>
          let st' =
            (if ph = Meaning
             then (if correct then st\<lparr>correctMeaning := correctMeaning st + 1\<rparr>
                   else st\<lparr>wrongMeaning := wrongMeaning st + 1\<rparr>)
             else (if correct then st\<lparr>correctArticle := correctArticle st + 1\<rparr>
                   else st\<lparr>wrongArticle := wrongArticle st + 1\<rparr>))
          in saveStats (w\<lparr>stats := m(itemId \<mapsto> st')\<rparr>)
      | (Foreign, m) \<Rightarrow> saveStats (w\<lparr>stats := m\<rparr>))"

subsection \<open>Rendering\<close>

text \<open>
  \<^verbatim>\<open>render\<close> disables the continue button, fixes the clue of the question when none is
  fixed yet, and replaces the choice buttons by fresh, enabled ones for the phase that
  \<^verbatim>\<open>state.phase\<close> names at that moment. An index outside \<^verbatim>\<open>clues_de\<close> reads
  \<^verbatim>\<open>undefined\<close>, which is as falsy as the empty text that stands for it here.
\<close>

definition render :: "world \<Rightarrow> world" where
  "render w =
     (let w1 = w\<lparr>btnNextDisabled := True\<rparr>
      in case current w1 of
           None \<Rightarrow> w1
         | Some it \<Rightarrow>
             let w2 =
                   (if currentClue w1 = []
                    then
                      let n = nat \<lfloor>random w1 0 * real (length (clues_de it))\<rfloor>
                      in w1\<lparr>currentClue := (if n < length (clues_de it) then clues_de it ! n else []),
                            random := rng_next (random w1)\<rparr>
                    else w1)
             in w2\<lparr>phaseLabel :=
                       (if phase w2 = Meaning then ''Phase 1: Welches Wort passt?''
                        else ''Phase 2: Welcher Artikel ist richtig?''),
                    buttons :=
                       (if phase w2 = Meaning then MeaningButtons (meaningChoices w2)
                        else ArticleButtons),
                    choicesDisabled := False\<rparr>)"

definition disableChoices :: "world \<Rightarrow> world" where
  "disableChoices w = w\<lparr>choicesDisabled := True\<rparr>"

subsection \<open>Requeueing\<close>

text \<open>
  The local \<^verbatim>\<open>afterN\<close> of \<^verbatim>\<open>requeueCurrentAdaptive\<close>, from the wrong count of a record.
  On an inherited value the wrong count is \<^verbatim>\<open>NaN\<close>, and so are \<^verbatim>\<open>afterN\<close> and
  \<^verbatim>\<open>insertAt\<close>; \<^verbatim>\<open>splice\<close> reads a \<^verbatim>\<open>NaN\<close> start as \<open>0\<close>.
\<close>

definition afterN :: "nat \<Rightarrow> int" where
  "afterN wrong = max 2 (min 6 (6 - int wrong div 2))"

definition requeueCurrentAdaptive :: "world \<Rightarrow> world" where
  "requeueCurrentAdaptive w =
     (case current w of
        None \<Rightarrow> w
      | Some it \<Rightarrow>
          (case ensureStat (inherited w) (stats w) (item_id it) of
             (Stat st, m) \<Rightarrow>
               let wrong = wrongMeaning st + wrongArticle st;
                   insertAt = nat (min (int (length (queue w))) (afterN wrong))
               in w\<lparr>stats := m,
                     queue := take insertAt (queue w) @ it # drop insertAt (queue w)\<rparr>
           | (Foreign, m) \<Rightarrow> w\<lparr>stats := m, queue := it # queue w\<rparr>))"

subsection \<open>The answer handlers\<close>

definition onMeaningAnswer :: "choice \<Rightarrow> world \<Rightarrow> error + world" where
  "onMeaningAnswer ch w =
     (if lock w then Inr w
      else
        (case current w of
           None \<Rightarrow> Inl TypeError
         | Some cur \<Rightarrow>
             let w1 = disableChoices (w\<lparr>lock := True\<rparr>);
                 correct = isCorrect ch;
                 w2 = recordResult (item_id cur) Meaning correct w1
             in if correct
                then Inr (w2\<lparr>score := score w2 + 2, streak := streak w2 + 1, phase := Article,
                              lock := False, renderTimers := renderTimers w2 + 1\<rparr>)
                else
                  let w3 = requeueCurrentAdaptive (w2\<lparr>score := max 0 (score w2 - 1), streak := 0\<rparr>)
                  in Inr (w3\<lparr>btnNextDisabled := False, lock := False\<rparr>)))"

definition onArticleAnswer :: "string \<Rightarrow> world \<Rightarrow> error + world" where
  "onArticleAnswer a w =
     (if lock w then Inr w
      else
        (case current w of
           None \<Rightarrow> Inl TypeError
         | Some cur \<Rightarrow>
             let w1 = disableChoices (w\<lparr>lock := True\<rparr>);
                 correct = (a = article cur);
                 w2 = recordResult (item_id cur) Article correct w1
             in if correct
                then Inr (w2\<lparr>score := score w2 + 2, streak := streak w2 + 1,
                              done_count := done_count w2 + 1,
                              btnNextDisabled := False, lock := False\<rparr>)
                else
                  let w3 = requeueCurrentAdaptive (w2\<lparr>score := max 0 (score w2 - 1), streak := 0\<rparr>)
                  in Inr (w3\<lparr>btnNextDisabled := False, lock := False\<rparr>)))"

subsection \<open>Rounds\<close>

text \<open>
  \<^verbatim>\<open>state.queue.shift()\<close> of an empty queue is \<^verbatim>\<open>undefined\<close>, and reading
  \<^verbatim>\<open>state.current.id\<close> then throws a \<^verbatim>\<open>TypeError\<close>.
\<close>

definition nextItem :: "world \<Rightarrow> error + world" where
  "nextItem w =
     (if done_count w \<ge> target w
      then Inr (w\<lparr>phaseLabel := ''Runde beendet'', buttons := NoButtons, btnNextDisabled := True\<rparr>)
      else
        (case queue w of
           [] \<Rightarrow> Inl TypeError
         | x # q \<Rightarrow>
             let w1 = w\<lparr>phase := Meaning, current := Some x, queue := q, currentClue := []\<rparr>;
                 w2 = recordSeen (item_id x) w1
             in (case buildMeaningChoices (vocab w2) x (random w2) of
                   (chs, rs) \<Rightarrow> Inr (render (w2\<lparr>meaningChoices := chs, random := rs\<rparr>)))))"

definition buildRoundQueue :: "world \<Rightarrow> item list \<times> world" where
  "buildRoundQueue w =
     (let w1 = w\<lparr>stats := foldl (\<lambda>m it. snd (ensureStat (inherited w) m (item_id it)))
                                  (stats w) (vocab w)\<rparr>
      in case pickWeightedUnique (vocab w1) (int TARGET_SETS)
                (itemWeight (inherited w1) (stats w1) (clock w1)) (random w1) of
           (picked, rs) \<Rightarrow>
             if length picked \<noteq> 0 then (picked, w1\<lparr>random := rs\<rparr>)
             else
               (case shuffle (vocab w1) rs of
                  (sh, rs') \<Rightarrow> (take TARGET_SETS sh, w1\<lparr>random := rs'\<rparr>)))"

definition startRound :: "world \<Rightarrow> error + world" where
  "startRound w =
     (case buildRoundQueue (w\<lparr>done_count := 0, score := 0, streak := 0, phase := Meaning\<rparr>) of
        (q, w1) \<Rightarrow> nextItem (w1\<lparr>queue := q\<rparr>))"

subsection \<open>The events of the page\<close>

text \<open>
  A click reaches a handler only through an enabled button: a choice button runs the
  handler that \<^verbatim>\<open>render\<close> bound to it, the continue button disables itself and runs
  \<^verbatim>\<open>nextItem\<close>, the restart button runs \<^verbatim>\<open>startRound\<close>. A pending timer runs
  \<^verbatim>\<open>render\<close>. Handlers run one at a time, to their end.
\<close>

datatype event = ClickChoice nat | ClickNext | ClickRestart | TimerFires

definition articles :: "string list" where
  "articles = [''der'', ''die'', ''das'']"

fun dispatch :: "event \<Rightarrow> world \<Rightarrow> error + world" where
  "dispatch (ClickChoice n) w =
     (if choicesDisabled w then Inr w
      else
        (case buttons w of
           NoButtons \<Rightarrow> Inr w
         | MeaningButtons chs \<Rightarrow> if n < length chs then onMeaningAnswer (chs ! n) w else Inr w
         | ArticleButtons \<Rightarrow> if n < length articles then onArticleAnswer (articles ! n) w else Inr w))"
| "dispatch ClickNext w =
     (if btnNextDisabled w then Inr w else nextItem (w\<lparr>btnNextDisabled := True\<rparr>))"
| "dispatch ClickRestart w = startRound w"
| "dispatch TimerFires w =
     (if renderTimers w = 0 then Inr w else Inr (render (w\<lparr>renderTimers := renderTimers w - 1\<rparr>)))"

fun run :: "event list \<Rightarrow> world \<Rightarrow> error + world" where
  "run [] w = Inr w"
| "run (e # es) w = (case dispatch e w of Inl err \<Rightarrow> Inl err | Inr w' \<Rightarrow> run es w')"

subsection \<open>Sample data\<close>

definition hund :: item where
  "hund = \<lparr>item_id = ''n1'', article = ''der'', lemma_de = ''Hund'', display = ''der Hund'',
            tags = [''tier''], clues_de = [''Er bellt.'']\<rparr>"

definition katze :: item where
  "katze = \<lparr>item_id = ''n2'', article = ''die'', lemma_de = ''Katze'', display = ''die Katze'',
            tags = [''tier''], clues_de = [''Sie miaut.'']\<rparr>"

definition haus :: item where
  "haus = \<lparr>item_id = ''n3'', article = ''das'', lemma_de = ''Haus'', display = ''das Haus'',
            tags = [''wohnen''], clues_de = [''Man wohnt darin.'']\<rparr>"

definition tisch :: item where
  "tisch = \<lparr>item_id = ''n4'', article = ''der'', lemma_de = ''Tisch'', display = ''der Tisch'',
             tags = [''moebel''], clues_de = [''Man isst daran.'']\<rparr>"

definition stuhl :: item where
  "stuhl = \<lparr>item_id = ''n5'', article = ''der'', lemma_de = ''Stuhl'', display = ''der Stuhl'',
             tags = [''moebel''], clues_de = [''Man sitzt darauf.'']\<rparr>"

text \<open>A catalog entry whose id is the name of a built-in member of every object.\<close>

definition konstruktor :: item where
  "konstruktor = \<lparr>item_id = ''constructor'', article = ''der'', lemma_de = ''Konstruktor'',
                   display = ''der Konstruktor'', tags = [''technik''],
                   clues_de = [''Er baut etwas.'']\<rparr>"

definition demoStat :: stat where
  "demoStat =
     \<lparr>seen = 5, correctMeaning = 3, wrongMeaning = 3, correctArticle = 1, wrongArticle = 1,
      lastSeenAt = 1000\<rparr>"

definition demoWorld :: world where
  "demoWorld =
     \<lparr>vocab = [hund], stats = Map.empty, target = TARGET_SETS, done_count = 0, score = 0,
      streak = 0, phase = Meaning, queue = [], current = None, meaningChoices = [], lock = False,
      currentClue = [],
      inherited = objectPrototypeNames, clock = 1700000000000, random = (\<lambda>_. 0), storage = None, getItemThrows = False,
      setItemThrows = False, setItemCalls = [], JSON_stringify = (\<lambda>_. ''{}''),
      JSON_parse = (\<lambda>_. None), buttons = NoButtons, choicesDisabled = False,
      btnNextDisabled = True, phaseLabel = [], renderTimers = 0\<rparr>"

subsection \<open>The specification's formulas\<close>

text \<open>
  Two definitions that follow the words of the specification and not the code:
  \<open>clamp(x, min, max)\<close> of the requeue rule, and the recency factor as a linear
  interpolation from \<^verbatim>\<open>RECENT_MIN_FACTOR\<close> at age \<open>0\<close> to \<open>1\<close> at the end of the window.
\<close>

definition clamp :: "int \<Rightarrow> int \<Rightarrow> int \<Rightarrow> int" where
  "clamp x lo hi = (if x < lo then lo else if hi < x then hi else x)"

definition recencyFactor_spec :: "stat \<Rightarrow> int \<Rightarrow> real" where
  "recencyFactor_spec st now =
     (let hours = real_of_int (now - lastSeenAt st) / (1000 * 60 * 60)
      in if lastSeenAt st = 0 \<or> hours \<ge> RECENT_PENALTY_HOURS then 1
         else RECENT_MIN_FACTOR + (1 - RECENT_MIN_FACTOR) * (hours / RECENT_PENALTY_HOURS))"

section \<open>Properties of the sampler\<close>

lemma drawStep_mset:
  assumes "pool \<noteq> []"
  shows "mset pool = add_mset (fst (drawStep weightFn pool rs)) (mset (fst (snd (drawStep weightFn pool rs))))"
proof (cases "weightSum (map weightFn pool) \<le> Num 0")
  case True
  with assms show ?thesis by (cases pool) (simp_all add: drawStep_def)
next
  case False
  define pos where
    "pos = min (walk (Num (rs 0) * weightSum (map weightFn pool)) (map weightFn pool) 0) (length pool - 1)"
  have "pos < length pool" using assms by (cases pool) (simp_all add: pos_def)
  then have "pool = take pos pool @ pool ! pos # drop (Suc pos) pool"
    by (rule id_take_nth_drop)
  then have "mset pool = mset (take pos pool @ pool ! pos # drop (Suc pos) pool)" by simp
  then have "mset pool = add_mset (pool ! pos) (mset (take pos pool @ drop (pos + 1) pool))" by simp
  with False show ?thesis by (simp add: drawStep_def Let_def pos_def)
qed

lemma pickLoop_spec:
  "mset (fst (pickLoop weightFn k i pool picked rs)) \<subseteq># mset picked + mset pool \<and>
   length (fst (pickLoop weightFn k i pool picked rs)) =
     length picked + nat (min (max (k - int i) 0) (int (length pool)))"
proof (induction weightFn k i pool picked rs rule: pickLoop.induct)
  case (1 weightFn k i pool picked rs)
  show ?case
  proof (cases "int i < k \<and> length pool > 0")
    case False
    then show ?thesis by (auto simp: pickLoop.simps [of weightFn k i pool picked rs])
  next
    case True
    obtain chosen pool' rs' where d: "drawStep weightFn pool rs = (chosen, pool', rs')"
      by (cases "drawStep weightFn pool rs") auto
    from True have ne: "pool \<noteq> []" by auto
    have m: "mset pool = add_mset chosen (mset pool')"
      using drawStep_mset [OF ne, of weightFn rs] d by simp
    then have "size (mset pool) = size (add_mset chosen (mset pool'))" by simp
    then have len: "length pool = Suc (length pool')" by simp
    have step: "pickLoop weightFn k i pool picked rs = pickLoop weightFn k (i + 1) pool' (picked @ [chosen]) rs'"
      using True d by (simp add: pickLoop.simps [of weightFn k i pool picked rs])
    have IH: "mset (fst (pickLoop weightFn k (i + 1) pool' (picked @ [chosen]) rs')) \<subseteq># mset (picked @ [chosen]) + mset pool' \<and>
      length (fst (pickLoop weightFn k (i + 1) pool' (picked @ [chosen]) rs')) =
      length (picked @ [chosen]) + nat (min (max (k - int (i + 1)) 0) (int (length pool')))"
      using "1.IH" [OF True d [symmetric] refl] .
    show ?thesis using IH True m len unfolding step by auto
  qed
qed

lemma distinct_mset_subseteq:
  assumes "mset ys \<subseteq># mset xs" and "distinct xs"
  shows "distinct ys"
proof -
  have le: "count (mset ys) a \<le> count (mset xs) a" for a
    using assms(1) by (rule mset_subset_eq_count)
  have "count (mset xs) a \<le> 1" for a
    using assms(2) by (simp add: distinct_count_atmost_1)
  then have "count (mset ys) a \<le> 1" for a
    using le [of a] by (rule order_trans [rotated])
  moreover have "a \<in> set ys \<Longrightarrow> 1 \<le> count (mset ys) a" for a
    by (simp add: Suc_le_eq)
  ultimately show ?thesis
    by (auto simp: distinct_count_atmost_1 intro: antisym)
qed

lemma distinct_map_mset_subset:
  assumes "mset ys \<subseteq># mset xs" and "distinct (map f xs)"
  shows "distinct (map f ys)"
proof -
  have "image_mset f (mset ys) \<subseteq># image_mset f (mset xs)"
    using assms(1) by (rule image_mset_subseteq_mono)
  then have "mset (map f ys) \<subseteq># mset (map f xs)" by simp
  then show ?thesis using assms(2) by (rule distinct_mset_subseteq)
qed

text \<open>
  Claim C1. On a pool whose ids are pairwise distinct, for every integer \<open>k\<close>, weight
  function and random source, \<^verbatim>\<open>pickWeightedUnique\<close> returns exactly
  \<open>min (max k 0) (length pool)\<close> items, pairwise distinct by id and all of the pool; the
  empty pool gives the empty result, and so does every \<open>k \<le> 0\<close> (written \<open>min k 0\<close>).
\<close>

theorem pickWeightedUnique_sample:
  assumes "distinct (map item_id pool)"
  shows "length (fst (pickWeightedUnique pool k weightFn rs)) = nat (min (max k 0) (int (length pool)))
    \<and> distinct (map item_id (fst (pickWeightedUnique pool k weightFn rs)))
    \<and> set (fst (pickWeightedUnique pool k weightFn rs)) \<subseteq> set pool
    \<and> fst (pickWeightedUnique [] k weightFn rs) = []
    \<and> fst (pickWeightedUnique pool (min k 0) weightFn rs) = []"
proof -
  let ?res = "fst (pickWeightedUnique pool k weightFn rs)"
  have sub: "mset ?res \<subseteq># mset pool" and len: "length ?res = nat (min (max k 0) (int (length pool)))"
    using pickLoop_spec [of weightFn k 0 pool "[]" rs] by (simp_all add: pickWeightedUnique_def)
  have d: "distinct (map item_id ?res)" using sub assms by (rule distinct_map_mset_subset)
  have s: "set ?res \<subseteq> set pool" using sub by (rule set_mset_mono [of "mset ?res" "mset pool", simplified])
  have e1: "fst (pickWeightedUnique [] k weightFn rs) = []"
    using pickLoop_spec [of weightFn k 0 "[]" "[]" rs] by (simp add: pickWeightedUnique_def)
  have e2: "fst (pickWeightedUnique pool (min k 0) weightFn rs) = []"
    using pickLoop_spec [of weightFn "min k 0" 0 pool "[]" rs] by (simp add: pickWeightedUnique_def)
  from len d s e1 e2 show ?thesis by blast
qed

theorem pickWeightedUnique_sample_witness:
  "distinct (map item_id [hund, katze, haus])
   \<and> length (fst (pickWeightedUnique [hund, katze, haus] 2 (\<lambda>_. Num 1) (\<lambda>_. 0))) = 2
   \<and> distinct (map item_id (fst (pickWeightedUnique [hund, katze, haus] 2 (\<lambda>_. Num 1) (\<lambda>_. 0))))
   \<and> set (fst (pickWeightedUnique [hund, katze, haus] 2 (\<lambda>_. Num 1) (\<lambda>_. 0))) \<subseteq> {hund, katze, haus}"
proof -
  have h: "distinct (map item_id [hund, katze, haus])" by (simp add: hund_def katze_def haus_def)
  show ?thesis using h pickWeightedUnique_sample [OF h, of 2 "\<lambda>_. Num 1" "\<lambda>_. 0"] by simp
qed


lemma weightSum_NaN: "NaN \<in> set ws \<Longrightarrow> weightSum ws = NaN"
proof -
  have n: "foldl (\<lambda>s w. s + Math_max0 w) NaN ws = NaN" for ws
    by (induction ws) simp_all
  have "NaN \<in> set ws \<Longrightarrow> foldl (\<lambda>s w. s + Math_max0 w) a ws = NaN" for a
  proof (induction ws arbitrary: a)
    case Nil
    then show ?case by simp
  next
    case (Cons w ws)
    show ?case
    proof (cases w)
      case (Num x)
      with Cons show ?thesis by simp
    next
      case NaN
      then have "a + Math_max0 w = NaN" by (cases a) simp_all
      then show ?thesis by (simp add: n)
    qed
  qed
  then show "NaN \<in> set ws \<Longrightarrow> weightSum ws = NaN" by (simp add: weightSum_def)
qed


text \<open>
  With a \<^verbatim>\<open>NaN\<close> among the weights the sum is \<^verbatim>\<open>NaN\<close>, no comparison succeeds, the inner
  loop runs to the end and the step takes the last candidate.
\<close>

lemma walk_NaN: "walk NaN ws idx = idx + length ws"
  by (induction ws arbitrary: idx) simp_all

lemma drawStep_NaN:
  assumes "pool \<noteq> []" and "NaN \<in> set (map weightFn pool)"
  shows "drawStep weightFn pool rs = (last pool, butlast pool, rng_next rs)"
proof -
  have s: "weightSum (map weightFn pool) = NaN" using assms(2) by (rule weightSum_NaN)
  have l: "pool ! (length pool - Suc 0) = last pool" using assms(1) by (simp add: last_conv_nth)
  have b: "take (length pool - Suc 0) pool = butlast pool" by (simp add: butlast_conv_take)
  show ?thesis using assms(1) by (simp add: drawStep_def s walk_NaN Let_def l b)
qed



section \<open>Properties of the requeue policy\<close>

lemma floor_half: "\<lfloor>real w / 2\<rfloor> = int w div 2"
proof -
  have "real w / 2 = real_of_int (int w) / real_of_int 2" by simp
  then show ?thesis by (simp only: floor_divide_of_int_eq)
qed

lemma afterN_clamp: "afterN w = clamp (6 - \<lfloor>real w / 2\<rfloor>) 2 6"
  unfolding floor_half by (simp add: afterN_def clamp_def)

lemma ensureStat_own: "m i = Some st \<Longrightarrow> ensureStat inh m i = (Stat st, m)"
  by (simp add: ensureStat_def)

lemma ensureStat_fresh:
  "m i = None \<Longrightarrow> i \<notin> set inh \<Longrightarrow> ensureStat inh m i = (Stat defaultStat, m(i \<mapsto> defaultStat))"
  by (simp add: ensureStat_def)

lemma ensureStat_inherited: "m i = None \<Longrightarrow> i \<in> set inh \<Longrightarrow> ensureStat inh m i = (Foreign, m)"
  by (simp add: ensureStat_def)

lemma ensureStat_constructor:
  "ensureStat objectPrototypeNames Map.empty ''constructor'' = (Foreign, Map.empty)"
  by (simp add: ensureStat_def objectPrototypeNames_def)

text \<open>
  Claim C2. With \<open>st\<close> the statistics record of the current item (the record that
  \<^verbatim>\<open>state.stats\<close> owns under its id, or the default record when the id is new) and \<open>w\<close>
  its wrong count, the offset of \<^verbatim>\<open>requeueCurrentAdaptive\<close> is
  \<open>clamp (6 - floor (w / 2)) 2 6\<close>: an integer from \<open>2\<close> to \<open>6\<close>, no larger for a larger
  wrong count, \<open>6\<close> at \<open>0\<close>, \<open>4\<close> at \<open>4\<close> and \<open>2\<close> at \<open>10\<close>; the current item is inserted
  into the queue at index \<open>min offset (length queue)\<close>, which is never past the end of
  the queue.
\<close>

theorem requeue_offset:
  assumes "current wd = Some it"
    and "stats wd (item_id it) = Some st
         \<or> (stats wd (item_id it) = None \<and> item_id it \<notin> set (inherited wd) \<and> st = defaultStat)"
    and "w = wrongMeaning st + wrongArticle st"
    and "w \<le> w'"
  shows "afterN w = clamp (6 - \<lfloor>real w / 2\<rfloor>) 2 6
    \<and> 2 \<le> afterN w \<and> afterN w \<le> 6
    \<and> afterN w' \<le> afterN w
    \<and> afterN 0 = 6 \<and> afterN 4 = 4 \<and> afterN 10 = 2
    \<and> queue (requeueCurrentAdaptive wd) =
          take (nat (min (afterN w) (int (length (queue wd))))) (queue wd) @ [it]
          @ drop (nat (min (afterN w) (int (length (queue wd))))) (queue wd)
    \<and> nat (min (afterN w) (int (length (queue wd)))) \<le> length (queue wd)"
proof -
  have mono: "afterN w' \<le> afterN w"
  proof -
    have "int w div 2 \<le> int w' div 2" using assms(4) by (simp add: zdiv_mono1)
    then show ?thesis by (simp add: afterN_def)
  qed
  have vals: "afterN 0 = 6" "afterN 4 = 4" "afterN 10 = 2" by (simp_all add: afterN_def)
  have bounds: "2 \<le> afterN w" "afterN w \<le> 6" by (simp_all add: afterN_def)
  have "fst (ensureStat (inherited wd) (stats wd) (item_id it)) = Stat st"
    using assms(2) by (auto simp: ensureStat_own ensureStat_fresh)
  then have q: "queue (requeueCurrentAdaptive wd) =
          take (nat (min (afterN w) (int (length (queue wd))))) (queue wd) @ [it]
          @ drop (nat (min (afterN w) (int (length (queue wd))))) (queue wd)"
    using assms(1,3)
    by (cases "ensureStat (inherited wd) (stats wd) (item_id it)")
       (simp add: requeueCurrentAdaptive_def Let_def min.commute)
  have le: "nat (min (afterN w) (int (length (queue wd)))) \<le> length (queue wd)" by simp
  from afterN_clamp [of w] bounds mono vals q le show ?thesis by blast
qed

theorem requeue_offset_witness:
  "current (demoWorld\<lparr>current := Some hund, queue := [katze, haus, katze, haus, katze, haus],
                       stats := [''n1'' \<mapsto> demoStat]\<rparr>) = Some hund
   \<and> stats (demoWorld\<lparr>current := Some hund, queue := [katze, haus, katze, haus, katze, haus],
                       stats := [''n1'' \<mapsto> demoStat]\<rparr>) (item_id hund) = Some demoStat
   \<and> wrongMeaning demoStat + wrongArticle demoStat = 4 \<and> (4::nat) \<le> 10
   \<and> afterN 4 = 4 \<and> afterN 10 \<le> afterN 4
   \<and> queue (requeueCurrentAdaptive
               (demoWorld\<lparr>current := Some hund, queue := [katze, haus, katze, haus, katze, haus],
                          stats := [''n1'' \<mapsto> demoStat]\<rparr>))
       = [katze, haus, katze, haus, hund, katze, haus]"
proof -
  let ?wd = "demoWorld\<lparr>current := Some hund, queue := [katze, haus, katze, haus, katze, haus],
                       stats := [''n1'' \<mapsto> demoStat]\<rparr>"
  have c: "current ?wd = Some hund" by simp
  have s: "stats ?wd (item_id hund) = Some demoStat" by (simp add: hund_def)
  then have st: "stats ?wd (item_id hund) = Some demoStat
         \<or> (stats ?wd (item_id hund) = None \<and> item_id hund \<notin> set (inherited ?wd) \<and> demoStat = defaultStat)"
    by (rule disjI1)
  have w: "4 = wrongMeaning demoStat + wrongArticle demoStat" by (simp add: demoStat_def)
  have le: "(4::nat) \<le> 10" by simp
  have v: "afterN 4 = 4" by (simp add: afterN_def)
  from requeue_offset [OF c st w le] c s w le show ?thesis by (simp add: v)
qed

text \<open>
  An item whose id names an inherited member of the prototype has no record: the
  wrong count is \<^verbatim>\<open>NaN\<close> and the item goes to the front of the queue.
\<close>

lemma requeue_inherited_name:
  assumes "current wd = Some it" and "stats wd (item_id it) = None"
    and "item_id it \<in> set (inherited wd)"
  shows "queue (requeueCurrentAdaptive wd) = it # queue wd"
  using assms by (simp add: requeueCurrentAdaptive_def ensureStat_inherited)

section \<open>Properties of the weight function\<close>

lemma recencyFactor_bounds:
  "RECENT_MIN_FACTOR \<le> recencyFactor st now" "0 < recencyFactor st now" "recencyFactor st now \<le> 1"
  by (simp_all add: recencyFactor_def Let_def RECENT_MIN_FACTOR_def RECENT_PENALTY_HOURS_def max_def)

lemma errorRate_nonneg: "0 \<le> errorRate st"
  by (simp add: errorRate_def Let_def)

lemma errorRate_le_1: "errorRate st \<le> 1"
  by (simp add: errorRate_def Let_def)

lemma newBonus_pos: "0 < newBonus st"
  by (simp add: newBonus_def NEW_ITEM_BONUS_def)

lemma errBoost_pos: "0 < errBoost st"
proof -
  have "0 \<le> errorRate st * ERROR_WEIGHT" using errorRate_nonneg [of st] by (simp add: ERROR_WEIGHT_def)
  then show ?thesis by (simp add: errBoost_def)
qed

lemma itemWeight_own:
  "itemWeight inh (m(item_id it \<mapsto> st)) now it = Num (newBonus st * errBoost st * recencyFactor st now)"
  by (simp add: itemWeight_def ensureStat_def errBoost_def Let_def)

lemma itemWeight_fresh:
  "m (item_id it) = None \<Longrightarrow> item_id it \<notin> set inh \<Longrightarrow> itemWeight inh m now it = Num NEW_ITEM_BONUS"
  by (simp add: itemWeight_def ensureStat_def defaultStat_def newBonus_def errorRate_def
      recencyFactor_def)

text \<open>
  An item whose id names an inherited member of the prototype has no record, and its
  weight is \<^verbatim>\<open>NaN\<close>.
\<close>

lemma itemWeight_inherited_name:
  "m (item_id it) = None \<Longrightarrow> item_id it \<in> set inh \<Longrightarrow> itemWeight inh m now it = NaN"
  by (simp add: itemWeight_def ensureStat_def)

text \<open>
  Claim C3, amended. The recency factor is \<open>1\<close> when \<^verbatim>\<open>lastSeenAt\<close> is unset (\<open>0\<close>) or
  the age is at least \<^verbatim>\<open>RECENT_PENALTY_HOURS\<close>; otherwise it is the larger of
  \<^verbatim>\<open>RECENT_MIN_FACTOR\<close> and the fraction \<open>age / window\<close> (a ramp cut off from below, not
  an interpolation between the two end values). It is \<^verbatim>\<open>RECENT_MIN_FACTOR\<close> for an item
  seen just now, at least \<^verbatim>\<open>RECENT_MIN_FACTOR\<close>, never \<open>0\<close> and at most \<open>1\<close>, and the
  weight of an item seen just now is at most the weight of the same item with
  \<^verbatim>\<open>lastSeenAt\<close> unset.
\<close>

theorem recencyFactor_clamped:
  "recencyFactor st now =
     (if lastSeenAt st = 0 \<or> real_of_int (now - lastSeenAt st) / 3600000 \<ge> RECENT_PENALTY_HOURS then 1
      else max RECENT_MIN_FACTOR (real_of_int (now - lastSeenAt st) / 3600000 / RECENT_PENALTY_HOURS))
   \<and> recencyFactor (st\<lparr>lastSeenAt := now\<rparr>) now = (if now = 0 then 1 else RECENT_MIN_FACTOR)
   \<and> RECENT_MIN_FACTOR \<le> recencyFactor st now
   \<and> 0 < recencyFactor st now
   \<and> recencyFactor st now \<le> 1
   \<and> itemWeight inh (m(item_id it \<mapsto> st\<lparr>lastSeenAt := now\<rparr>)) now it
       \<le> itemWeight inh (m(item_id it \<mapsto> st\<lparr>lastSeenAt := 0\<rparr>)) now it"
proof -
  have a: "recencyFactor st now =
     (if lastSeenAt st = 0 \<or> real_of_int (now - lastSeenAt st) / 3600000 \<ge> RECENT_PENALTY_HOURS then 1
      else max RECENT_MIN_FACTOR (real_of_int (now - lastSeenAt st) / 3600000 / RECENT_PENALTY_HOURS))"
    by (simp add: recencyFactor_def Let_def)
  have b: "recencyFactor (st\<lparr>lastSeenAt := now\<rparr>) now = (if now = 0 then 1 else RECENT_MIN_FACTOR)"
    by (simp add: recencyFactor_def Let_def RECENT_MIN_FACTOR_def RECENT_PENALTY_HOURS_def)
  have unset: "recencyFactor (st\<lparr>lastSeenAt := 0\<rparr>) now = 1" by (simp add: recencyFactor_def)
  have nb: "newBonus (st\<lparr>lastSeenAt := now\<rparr>) = newBonus (st\<lparr>lastSeenAt := 0\<rparr>)"
    by (simp add: newBonus_def)
  have eb: "errBoost (st\<lparr>lastSeenAt := now\<rparr>) = errBoost (st\<lparr>lastSeenAt := 0\<rparr>)"
    by (simp add: errBoost_def errorRate_def)
  have pos: "0 \<le> newBonus (st\<lparr>lastSeenAt := 0\<rparr>) * errBoost (st\<lparr>lastSeenAt := 0\<rparr>)"
    using newBonus_pos [of "st\<lparr>lastSeenAt := 0\<rparr>"] errBoost_pos [of "st\<lparr>lastSeenAt := 0\<rparr>"]
    by (simp add: less_imp_le)
  have "newBonus (st\<lparr>lastSeenAt := 0\<rparr>) * errBoost (st\<lparr>lastSeenAt := 0\<rparr>)
          * recencyFactor (st\<lparr>lastSeenAt := now\<rparr>) now
        \<le> newBonus (st\<lparr>lastSeenAt := 0\<rparr>) * errBoost (st\<lparr>lastSeenAt := 0\<rparr>) * 1"
    using pos recencyFactor_bounds(3) [of "st\<lparr>lastSeenAt := now\<rparr>" now] by (rule mult_left_mono [rotated])
  then have c: "itemWeight inh (m(item_id it \<mapsto> st\<lparr>lastSeenAt := now\<rparr>)) now it
       \<le> itemWeight inh (m(item_id it \<mapsto> st\<lparr>lastSeenAt := 0\<rparr>)) now it"
    by (simp add: itemWeight_own nb eb unset)
  from a b c recencyFactor_bounds [of st now] show ?thesis by blast
qed

theorem recencyFactor_clamped_witness:
  "recencyFactor demoStat (1000 + 3 * 3600000) = RECENT_MIN_FACTOR
   \<and> recencyFactor demoStat (1000 + 18 * 3600000) = 3 / 4
   \<and> recencyFactor demoStat (1000 + 24 * 3600000) = 1"
  using recencyFactor_clamped [of demoStat "1000 + 3 * 3600000" "[]" Map.empty hund]
    recencyFactor_clamped [of demoStat "1000 + 18 * 3600000" "[]" Map.empty hund]
    recencyFactor_clamped [of demoStat "1000 + 24 * 3600000" "[]" Map.empty hund]
  by (simp add: demoStat_def RECENT_MIN_FACTOR_def RECENT_PENALTY_HOURS_def)

text \<open>
  Twelve hours after the item was seen the code's factor is \<open>1/2\<close>, where the linear
  interpolation from \<open>1/4\<close> to \<open>1\<close> gives \<open>5/8\<close>.
\<close>

theorem recencyFactor_counterexample:
  "recencyFactor (demoStat\<lparr>lastSeenAt := 1000\<rparr>) (1000 + 12 * 3600000) = 1 / 2
   \<and> recencyFactor_spec (demoStat\<lparr>lastSeenAt := 1000\<rparr>) (1000 + 12 * 3600000) = 5 / 8"
  by (simp add: recencyFactor_def recencyFactor_spec_def Let_def RECENT_MIN_FACTOR_def RECENT_PENALTY_HOURS_def)

text \<open>
  What holds for every statistics record \<open>a\<close> that \<^verbatim>\<open>state.stats\<close> holds under the id of
  the item: the weight is the product of the new-item bonus (\<^verbatim>\<open>NEW_ITEM_BONUS\<close> when
  \<^verbatim>\<open>seen\<close> is \<open>0\<close>, else \<open>1\<close>), the error boost \<open>1 + errorRate * ERROR_WEIGHT\<close> and the
  recency factor, where the error rate is wrong answers over all answers and \<open>0\<close>
  without answers; the weight is a number and not negative; and of two records with the
  same \<^verbatim>\<open>seen\<close> and \<^verbatim>\<open>lastSeenAt\<close>, the one with the higher error rate weighs at least
  as much.
\<close>

lemma itemWeight_monotone:
  assumes "seen a = seen b" and "lastSeenAt a = lastSeenAt b" and "errorRate a \<le> errorRate b"
  shows "itemWeight inh (m(item_id it \<mapsto> a)) now it =
           Num ((if seen a = 0 then NEW_ITEM_BONUS else 1)
                * (1 + errorRate a * ERROR_WEIGHT)
                * recencyFactor a now)
    \<and> errorRate a =
           (if correctMeaning a + wrongMeaning a + correctArticle a + wrongArticle a = 0 then 0
            else real (wrongMeaning a + wrongArticle a)
                 / real (correctMeaning a + wrongMeaning a + correctArticle a + wrongArticle a))
    \<and> Num 0 \<le> itemWeight inh (m(item_id it \<mapsto> a)) now it
    \<and> itemWeight inh (m(item_id it \<mapsto> a)) now it \<le> itemWeight inh (m(item_id it \<mapsto> b)) now it"
proof -
  have p: "itemWeight inh (m(item_id it \<mapsto> a)) now it =
           Num ((if seen a = 0 then NEW_ITEM_BONUS else 1)
                * (1 + errorRate a * ERROR_WEIGHT)
                * recencyFactor a now)"
    by (simp add: itemWeight_own newBonus_def errBoost_def)
  have e: "errorRate a =
           (if correctMeaning a + wrongMeaning a + correctArticle a + wrongArticle a = 0 then 0
            else real (wrongMeaning a + wrongArticle a)
                 / real (correctMeaning a + wrongMeaning a + correctArticle a + wrongArticle a))"
    by (simp add: errorRate_def Let_def)
  have "0 \<le> newBonus a * errBoost a * recencyFactor a now"
    using newBonus_pos [of a] errBoost_pos [of a] recencyFactor_bounds(2) [of a now]
    by (simp add: less_imp_le)
  then have nn: "Num 0 \<le> itemWeight inh (m(item_id it \<mapsto> a)) now it"
    by (simp add: itemWeight_own)
  have nb: "newBonus a = newBonus b" using assms(1) by (simp add: newBonus_def)
  have rf: "recencyFactor a now = recencyFactor b now" using assms(2) by (simp add: recencyFactor_def)
  have "errBoost a \<le> errBoost b" using assms(3) by (simp add: errBoost_def ERROR_WEIGHT_def)
  then have "newBonus b * errBoost a \<le> newBonus b * errBoost b"
    using newBonus_pos [of b] by simp
  then have "newBonus b * errBoost a * recencyFactor b now \<le> newBonus b * errBoost b * recencyFactor b now"
    using recencyFactor_bounds(2) [of b now] by (intro mult_right_mono) simp_all
  then have mono: "itemWeight inh (m(item_id it \<mapsto> a)) now it \<le> itemWeight inh (m(item_id it \<mapsto> b)) now it"
    by (simp add: itemWeight_own nb rf)
  from p e nn mono show ?thesis by blast
qed

lemma itemWeight_monotone_example:
  "seen demoStat = seen (demoStat\<lparr>wrongMeaning := 7\<rparr>)
   \<and> lastSeenAt demoStat = lastSeenAt (demoStat\<lparr>wrongMeaning := 7\<rparr>)
   \<and> errorRate demoStat = 1 / 2 \<and> errorRate (demoStat\<lparr>wrongMeaning := 7\<rparr>) = 2 / 3
   \<and> itemWeight objectPrototypeNames (Map.empty(item_id hund \<mapsto> demoStat)) 1000 hund = Num (3 / 4)
   \<and> itemWeight objectPrototypeNames (Map.empty(item_id hund \<mapsto> demoStat\<lparr>wrongMeaning := 7\<rparr>)) 1000 hund
       = Num (11 / 12)"
proof -
  have s: "seen demoStat = seen (demoStat\<lparr>wrongMeaning := 7\<rparr>)" by simp
  have l: "lastSeenAt demoStat = lastSeenAt (demoStat\<lparr>wrongMeaning := 7\<rparr>)" by simp
  have e1: "errorRate demoStat = 1 / 2" by (simp add: errorRate_def demoStat_def)
  have e2: "errorRate (demoStat\<lparr>wrongMeaning := 7\<rparr>) = 2 / 3" by (simp add: errorRate_def demoStat_def)
  have e: "errorRate demoStat \<le> errorRate (demoStat\<lparr>wrongMeaning := 7\<rparr>)" by (simp add: e1 e2)
  have r: "recencyFactor demoStat 1000 = 1 / 4" "recencyFactor (demoStat\<lparr>wrongMeaning := 7\<rparr>) 1000 = 1 / 4"
    by (simp_all add: recencyFactor_def demoStat_def RECENT_MIN_FACTOR_def RECENT_PENALTY_HOURS_def)
  have n: "seen demoStat = 5" by (simp add: demoStat_def)
  have "itemWeight objectPrototypeNames (Map.empty(item_id hund \<mapsto> demoStat)) 1000 hund =
           Num ((if seen demoStat = 0 then NEW_ITEM_BONUS else 1)
                * (1 + errorRate demoStat * ERROR_WEIGHT)
                * recencyFactor demoStat 1000)"
    using itemWeight_monotone [OF s l e, of objectPrototypeNames Map.empty hund 1000]
    by (rule conjunct1)
  then have w1: "itemWeight objectPrototypeNames (Map.empty(item_id hund \<mapsto> demoStat)) 1000 hund
                 = Num (3 / 4)"
    unfolding e1 r n by (simp add: ERROR_WEIGHT_def)
  have "itemWeight objectPrototypeNames (Map.empty(item_id hund \<mapsto> demoStat\<lparr>wrongMeaning := 7\<rparr>)) 1000 hund
        = Num (newBonus (demoStat\<lparr>wrongMeaning := 7\<rparr>) * errBoost (demoStat\<lparr>wrongMeaning := 7\<rparr>)
               * recencyFactor (demoStat\<lparr>wrongMeaning := 7\<rparr>) 1000)"
    by (rule itemWeight_own)
  then have w2: "itemWeight objectPrototypeNames (Map.empty(item_id hund \<mapsto> demoStat\<lparr>wrongMeaning := 7\<rparr>)) 1000 hund
                 = Num (11 / 12)"
    unfolding errBoost_def e2 r by (simp add: newBonus_def n ERROR_WEIGHT_def)
  from s l e1 e2 w1 w2 show ?thesis by blast
qed

text \<open>
  Claim C4, which the code does not meet. With fresh statistics \<^verbatim>\<open>{}\<close> and a catalog
  entry whose id is \<^verbatim>\<open>constructor\<close>, \<^verbatim>\<open>state.stats[id]\<close> is the inherited built-in, which is
  truthy: \<^verbatim>\<open>ensureStat\<close> creates no record and returns it. Its counters are
  \<^verbatim>\<open>undefined\<close>, so the total is \<^verbatim>\<open>NaN\<close>, the error rate is \<^verbatim>\<open>NaN\<close> and the weight is
  \<^verbatim>\<open>NaN\<close>, which is not at least \<open>0\<close>. In a pool that holds this entry the sum of the
  weights is \<^verbatim>\<open>NaN\<close> and a draw takes the last candidate, whatever the weights of the
  others.
\<close>

theorem itemWeight_inherited_id:
  "ensureStat objectPrototypeNames Map.empty (item_id konstruktor) = (Foreign, Map.empty)
   \<and> itemWeight objectPrototypeNames Map.empty 1700000000000 konstruktor = NaN
   \<and> \<not> Num 0 \<le> itemWeight objectPrototypeNames Map.empty 1700000000000 konstruktor
   \<and> drawStep (itemWeight objectPrototypeNames Map.empty 1700000000000) [konstruktor, hund, katze]
         (\<lambda>_. 0)
       = (katze, [konstruktor, hund], \<lambda>_. 0)"
proof -
  have e: "ensureStat objectPrototypeNames Map.empty (item_id konstruktor) = (Foreign, Map.empty)"
    by (simp add: ensureStat_def objectPrototypeNames_def konstruktor_def)
  have w: "itemWeight objectPrototypeNames Map.empty 1700000000000 konstruktor = NaN"
    by (simp add: itemWeight_def e)
  have "NaN \<in> set (map (itemWeight objectPrototypeNames Map.empty 1700000000000)
                       [konstruktor, hund, katze])"
    by (simp add: w)
  then have d: "drawStep (itemWeight objectPrototypeNames Map.empty 1700000000000)
                  [konstruktor, hund, katze] (\<lambda>_. 0)
                = (katze, [konstruktor, hund], \<lambda>_. 0)"
    by (simp add: drawStep_NaN rng_next_def)
  from e w d show ?thesis by simp
qed

section \<open>Properties of a round\<close>

lemma shuffle_single: "shuffle [x] rs = ([x], rs)"
  by (simp add: shuffle_def)

lemma pickWeightedUnique_single:
  "Num 0 < weightFn x \<Longrightarrow> 0 < k \<Longrightarrow> pickWeightedUnique [x] k weightFn rs = ([x], rng_next rs)"
  by (cases "weightFn x")
     (simp_all add: pickWeightedUnique_def pickLoop.simps [of _ _ 0] pickLoop.simps [of _ _ "Suc 0"]
        drawStep_def weightSum_def Let_def)

lemma buildMeaningChoices_single:
  "item_id x = item_id it \<Longrightarrow> buildMeaningChoices [x] it rs = ([toChoice it it], rs)"
  by (simp add: buildMeaningChoices_def distractors_def firstDistractors_def pref_def
      diffArticle_def candidates_def sameTag_def rest_def byId_def shuffle_def)

lemmas demo_eval =
  startRound_def demoWorld_def buildRoundQueue_def ensureStat_def objectPrototypeNames_def
  pickWeightedUnique_single
  itemWeight_def newBonus_def errorRate_def recencyFactor_def defaultStat_def
  NEW_ITEM_BONUS_def TARGET_SETS_def RECENT_PENALTY_HOURS_def RECENT_MIN_FACTOR_def ERROR_WEIGHT_def
  nextItem_def recordSeen_def recordResult_def saveStats_def
  buildMeaningChoices_single render_def disableChoices_def Let_def rng_next_def hund_def
  onMeaningAnswer_def onArticleAnswer_def requeueCurrentAdaptive_def afterN_def toChoice_def
  articles_def

lemma score_saveStats: "score (saveStats w) = score w"
  by (simp add: saveStats_def Let_def)

lemma score_recordResult: "score (recordResult i ph c w) = score w"
  by (simp add: recordResult_def score_saveStats Let_def split: prod.splits statval.splits)

lemma score_recordSeen: "score (recordSeen i w) = score w"
  by (simp add: recordSeen_def score_saveStats split: prod.splits statval.splits)

lemma score_requeue: "score (requeueCurrentAdaptive w) = score w"
  by (simp add: requeueCurrentAdaptive_def Let_def split: option.splits prod.splits statval.splits)

lemma score_render: "score (render w) = score w"
  by (simp add: render_def Let_def split: option.splits)

lemma onMeaningAnswer_score:
  "onMeaningAnswer ch w = Inr w' \<Longrightarrow>
     score w' = (if lock w then score w else if isCorrect ch then score w + 2 else max 0 (score w - 1))"
  by (auto simp: onMeaningAnswer_def disableChoices_def Let_def score_recordResult score_requeue
      split: if_splits option.splits)

lemma onArticleAnswer_score:
  "onArticleAnswer a w = Inr w' \<Longrightarrow> current w = Some cur \<Longrightarrow>
     score w' = (if lock w then score w else if a = article cur then score w + 2 else max 0 (score w - 1))"
  by (auto simp: onArticleAnswer_def disableChoices_def Let_def score_recordResult score_requeue
      split: if_splits option.splits)

lemma nextItem_score: "nextItem w = Inr w' \<Longrightarrow> score w' = score w"
  by (auto simp: nextItem_def Let_def score_render score_recordSeen split: if_splits list.splits prod.splits statval.splits)

lemma buildRoundQueue_score: "score (snd (buildRoundQueue w)) = score w"
  by (simp add: buildRoundQueue_def Let_def split: prod.splits statval.splits)

lemma startRound_score: "startRound w = Inr w' \<Longrightarrow> score w' = 0"
proof -
  assume a: "startRound w = Inr w'"
  obtain q w1 where b: "buildRoundQueue (w\<lparr>done_count := 0, score := 0, streak := 0, phase := Meaning\<rparr>) = (q, w1)"
    by (cases "buildRoundQueue (w\<lparr>done_count := 0, score := 0, streak := 0, phase := Meaning\<rparr>)") auto
  have "score w1 = 0"
    using buildRoundQueue_score [of "w\<lparr>done_count := 0, score := 0, streak := 0, phase := Meaning\<rparr>"] b by simp
  moreover have "nextItem (w1\<lparr>queue := q\<rparr>) = Inr w'" using a b by (simp add: startRound_def)
  ultimately show ?thesis using nextItem_score [of "w1\<lparr>queue := q\<rparr>" w'] by simp
qed

lemma dispatch_score_nonneg:
  assumes "0 \<le> score w" and "dispatch e w = Inr w'"
  shows "0 \<le> score w'"
proof (cases e)
  case (ClickChoice n)
  show ?thesis
  proof (cases "choicesDisabled w")
    case True
    with assms ClickChoice show ?thesis by simp
  next
    case False
    show ?thesis
    proof (cases "buttons w")
      case NoButtons
      with assms ClickChoice False show ?thesis by simp
    next
      case (MeaningButtons chs)
      with assms ClickChoice False show ?thesis
        by (auto split: if_splits dest!: onMeaningAnswer_score)
    next
      case ArticleButtons
      show ?thesis
      proof (cases "current w")
        case None
        with assms ClickChoice False ArticleButtons show ?thesis
          by (auto simp: onArticleAnswer_def split: if_splits)
      next
        case (Some cur)
        with assms ClickChoice False ArticleButtons show ?thesis
          by (auto split: if_splits dest!: onArticleAnswer_score [where cur = cur])
      qed
    qed
  qed
next
  case ClickNext
  with assms show ?thesis by (auto split: if_splits dest!: nextItem_score)
next
  case ClickRestart
  with assms show ?thesis by (auto dest!: startRound_score)
next
  case TimerFires
  with assms show ?thesis by (auto simp: score_render split: if_splits)
qed

lemma run_score_nonneg: "0 \<le> score w \<Longrightarrow> run es w = Inr w' \<Longrightarrow> 0 \<le> score w'"
proof (induction es arbitrary: w)
  case Nil
  then show ?case by simp
next
  case (Cons e es)
  then show ?case by (auto split: sum.splits dest: dispatch_score_nonneg)
qed

lemma onMeaningAnswer_returns:
  "\<not> lock w \<Longrightarrow> current w = Some cur \<Longrightarrow> \<exists>w'. onMeaningAnswer ch w = Inr w'"
  by (simp add: onMeaningAnswer_def Let_def)

lemma onArticleAnswer_returns:
  "\<not> lock w \<Longrightarrow> current w = Some cur \<Longrightarrow> \<exists>w'. onArticleAnswer a w = Inr w'"
  by (simp add: onArticleAnswer_def Let_def)

text \<open>
  Claim C10. The score is never negative. \<^verbatim>\<open>startRound\<close> sets it to \<open>0\<close>; in every
  state that a sequence of page events reaches from there it is at least \<open>0\<close>; and
  an answer handler that runs (no lock, a current item) returns, adding \<open>2\<close> for a
  correct answer and setting the score to \<open>max 0 (score - 1)\<close> for an incorrect one.
\<close>

theorem score_never_negative:
  assumes "startRound w0 = Inr w1" and "run es w1 = Inr w" and "\<not> lock w" and "current w = Some cur"
  shows "score w1 = 0 \<and> 0 \<le> score w
    \<and> (\<exists>w'. onMeaningAnswer ch w = Inr w' \<and> 0 \<le> score w'
          \<and> score w' = (if isCorrect ch then score w + 2 else max 0 (score w - 1)))
    \<and> (\<exists>w'. onArticleAnswer a w = Inr w' \<and> 0 \<le> score w'
          \<and> score w' = (if a = article cur then score w + 2 else max 0 (score w - 1)))"
proof -
  have s1: "score w1 = 0" using assms(1) by (rule startRound_score)
  then have s: "0 \<le> score w" using run_score_nonneg [OF _ assms(2)] by simp
  obtain wm where m: "onMeaningAnswer ch w = Inr wm"
    using onMeaningAnswer_returns [OF assms(3,4)] by blast
  have ms: "score wm = (if isCorrect ch then score w + 2 else max 0 (score w - 1))"
    using onMeaningAnswer_score [OF m] assms(3) by simp
  obtain wa where a: "onArticleAnswer a w = Inr wa"
    using onArticleAnswer_returns [OF assms(3,4)] by blast
  have as: "score wa = (if a = article cur then score w + 2 else max 0 (score w - 1))"
    using onArticleAnswer_score [OF a assms(4)] assms(3) by simp
  have "0 \<le> score wm" using ms s by (simp split: if_splits)
  moreover have "0 \<le> score wa" using as s by (simp split: if_splits)
  ultimately show ?thesis using s1 s m ms a as by blast
qed

theorem score_never_negative_witness:
  "\<exists>w1 w. startRound demoWorld = Inr w1 \<and> run [ClickChoice 0, TimerFires] w1 = Inr w
     \<and> \<not> lock w \<and> current w = Some hund \<and> score w1 = 0 \<and> score w = 2
     \<and> (\<exists>w'. onMeaningAnswer (toChoice hund katze) w = Inr w' \<and> score w' = 1)
     \<and> (\<exists>w'. onArticleAnswer ''der'' w = Inr w' \<and> score w' = 4)"
proof -
  have "\<exists>w1 w. startRound demoWorld = Inr w1 \<and> run [ClickChoice 0, TimerFires] w1 = Inr w
     \<and> \<not> lock w \<and> current w = Some hund \<and> score w = 2"
    by (simp add: demo_eval)
  then obtain w1 w where a: "startRound demoWorld = Inr w1" and b: "run [ClickChoice 0, TimerFires] w1 = Inr w"
    and c: "\<not> lock w" and d: "current w = Some hund" and e: "score w = 2" by blast
  have k: "\<not> isCorrect (toChoice hund katze)" by (simp add: toChoice_def hund_def katze_def)
  have h: "''der'' = article hund" by (simp add: hund_def)
  from score_never_negative [OF a b c d, of "toChoice hund katze" "''der''"] a b c d e k h
  show ?thesis by (auto simp del: run.simps)
qed

text \<open>
  What the handlers do to the completed counter and to the queue: only a correct
  article answer changes \<^verbatim>\<open>done\<close>, a miss in either phase puts the current item back
  into the queue, a draw starts in the meaning phase, and a draw from an empty queue
  throws.
\<close>

lemma done_count_recordResult: "done_count (recordResult i ph c w) = done_count w"
  by (simp add: recordResult_def saveStats_def Let_def split: prod.splits statval.splits)

lemma done_count_requeue: "done_count (requeueCurrentAdaptive w) = done_count w"
  by (simp add: requeueCurrentAdaptive_def Let_def split: option.splits prod.splits statval.splits)

lemma queue_recordResult: "queue (recordResult i ph c w) = queue w"
  by (simp add: recordResult_def saveStats_def Let_def split: prod.splits statval.splits)

lemma current_recordResult: "current (recordResult i ph c w) = current w"
  by (simp add: recordResult_def saveStats_def Let_def split: prod.splits statval.splits)

lemma length_queue_requeue:
  "current w = Some cur \<Longrightarrow> length (queue (requeueCurrentAdaptive w)) = Suc (length (queue w))
     \<and> cur \<in> set (queue (requeueCurrentAdaptive w))"
  by (simp add: requeueCurrentAdaptive_def Let_def split: prod.splits statval.splits)

lemma onMeaningAnswer_done_count:
  "onMeaningAnswer ch w = Inr w' \<Longrightarrow> done_count w' = done_count w"
  by (auto simp: onMeaningAnswer_def disableChoices_def Let_def done_count_recordResult
      done_count_requeue split: if_splits option.splits)

lemma onArticleAnswer_done_count:
  "onArticleAnswer a w = Inr w' \<Longrightarrow> current w = Some cur \<Longrightarrow>
     done_count w' = (if \<not> lock w \<and> a = article cur then done_count w + 1 else done_count w)"
  by (auto simp: onArticleAnswer_def disableChoices_def Let_def done_count_recordResult
      done_count_requeue split: if_splits option.splits)

lemma onMeaningAnswer_miss_requeues:
  assumes "onMeaningAnswer ch w = Inr w'" and "\<not> lock w" and "current w = Some cur" and "\<not> isCorrect ch"
  shows "length (queue w') = Suc (length (queue w)) \<and> cur \<in> set (queue w')"
proof -
  let ?w2 = "(recordResult (item_id cur) Meaning False (disableChoices (w\<lparr>lock := True\<rparr>)))
               \<lparr>score := max 0 (score (recordResult (item_id cur) Meaning False (disableChoices (w\<lparr>lock := True\<rparr>))) - 1),
                streak := 0\<rparr>"
  have c: "current ?w2 = Some cur" using assms(3) by (simp add: current_recordResult disableChoices_def)
  have q: "queue ?w2 = queue w" by (simp add: queue_recordResult disableChoices_def)
  have "w' = (requeueCurrentAdaptive ?w2)\<lparr>btnNextDisabled := False, lock := False\<rparr>"
    using assms by (simp add: onMeaningAnswer_def Let_def)
  then show ?thesis using length_queue_requeue [OF c] q by simp
qed

lemma onArticleAnswer_miss_requeues:
  assumes "onArticleAnswer a w = Inr w'" and "\<not> lock w" and "current w = Some cur" and "a \<noteq> article cur"
  shows "length (queue w') = Suc (length (queue w)) \<and> cur \<in> set (queue w')"
proof -
  let ?w2 = "(recordResult (item_id cur) Article False (disableChoices (w\<lparr>lock := True\<rparr>)))
               \<lparr>score := max 0 (score (recordResult (item_id cur) Article False (disableChoices (w\<lparr>lock := True\<rparr>))) - 1),
                streak := 0\<rparr>"
  have c: "current ?w2 = Some cur" using assms(3) by (simp add: current_recordResult disableChoices_def)
  have q: "queue ?w2 = queue w" by (simp add: queue_recordResult disableChoices_def)
  have "w' = (requeueCurrentAdaptive ?w2)\<lparr>btnNextDisabled := False, lock := False\<rparr>"
    using assms by (simp add: onArticleAnswer_def Let_def)
  then show ?thesis using length_queue_requeue [OF c] q by simp
qed

lemma phase_render: "phase (render w) = phase w"
  by (simp add: render_def Let_def split: option.splits)

lemma phase_recordSeen: "phase (recordSeen i w) = phase w"
  by (simp add: recordSeen_def saveStats_def Let_def split: prod.splits statval.splits)

lemma nextItem_restarts_meaning:
  "nextItem w = Inr w' \<Longrightarrow> done_count w < target w \<Longrightarrow> phase w' = Meaning"
  by (auto simp: nextItem_def Let_def phase_render phase_recordSeen split: if_splits list.splits prod.splits statval.splits)

lemma nextItem_empty_queue_throws:
  "done_count w < target w \<Longrightarrow> queue w = [] \<Longrightarrow> nextItem w = Inl TypeError"
  by (simp add: nextItem_def)

lemma demo_round_started:
  "\<exists>w. startRound demoWorld = Inr w \<and> done_count w = 0 \<and> queue w = [] \<and> current w = Some hund
     \<and> buttons w = MeaningButtons [toChoice hund hund] \<and> \<not> choicesDisabled w"
  by (simp add: demo_eval)

text \<open>
  Claim C5, which the code does not meet. With a catalog of one item the round is built
  from that item alone while \<^verbatim>\<open>state.target\<close> stays \<^verbatim>\<open>TARGET_SETS\<close>. After the item
  is completed (meaning answered, the delayed \<^verbatim>\<open>render\<close>, article answered) one item
  is done of a target of \<open>20\<close>, the queue is empty and the continue button is enabled;
  the click on it runs \<^verbatim>\<open>nextItem\<close>, which takes \<^verbatim>\<open>undefined\<close> from the empty queue and
  throws on \<^verbatim>\<open>state.current.id\<close>.
\<close>

theorem short_round_throws:
  "\<exists>w1 w2. startRound demoWorld = Inr w1
     \<and> run [ClickChoice 0, TimerFires, ClickChoice 0] w1 = Inr w2
     \<and> vocab w2 = [hund] \<and> done_count w2 = 1 \<and> target w2 = 20 \<and> queue w2 = []
     \<and> \<not> btnNextDisabled w2
     \<and> dispatch ClickNext w2 = Inl TypeError"
  by (simp add: demo_eval)

text \<open>
  Claim C6, which the code does not meet. A meaning answer is correct (first delayed
  \<^verbatim>\<open>render\<close> pending), the round is restarted and the meaning answer of the new draw
  is correct (second pending). The first \<^verbatim>\<open>render\<close> fires and shows the article buttons;
  the article answer \<^verbatim>\<open>die\<close> is wrong, so the item is requeued and the buttons are
  disabled. The second \<^verbatim>\<open>render\<close> fires and shows enabled article buttons again, for the
  same draw; the answer \<^verbatim>\<open>der\<close> is correct and \<^verbatim>\<open>done\<close> goes from \<open>0\<close> to \<open>1\<close>, right
  after a miss of that draw, with the item still in the queue.
\<close>

theorem stale_render_double_answer:
  "\<exists>w1 w5 w7. startRound demoWorld = Inr w1
     \<and> run [ClickChoice 0, ClickRestart, ClickChoice 0, TimerFires, ClickChoice 1] w1 = Inr w5
     \<and> current w5 = Some hund \<and> done_count w5 = 0 \<and> queue w5 = [hund]
     \<and> choicesDisabled w5 \<and> renderTimers w5 = 1
     \<and> map_option wrongArticle (stats w5 ''n1'') = Some 1
     \<and> run [TimerFires, ClickChoice 0] w5 = Inr w7
     \<and> current w7 = Some hund \<and> done_count w7 = 1 \<and> queue w7 = [hund]"
  by (simp add: demo_eval)

section \<open>Properties of the persistence of statistics\<close>

lemma loadStats_cases:
  "loadStats w = JObj []
   \<or> (\<exists>raw. \<not> getItemThrows w \<and> storage w = Some raw \<and> raw \<noteq> [] \<and> JSON_parse w raw = Some (loadStats w)
         \<and> truthy (loadStats w) \<and> typeof_object (loadStats w))"
  by (auto simp: loadStats_def split: option.splits)

lemma loadStats_empty:
  assumes "getItemThrows w \<or> storage w = None
           \<or> (\<exists>raw. storage w = Some raw
                 \<and> (raw = [] \<or> JSON_parse w raw = None
                      \<or> (\<exists>v. JSON_parse w raw = Some v \<and> (v = JNull \<or> \<not> typeof_object v))))"
  shows "loadStats w = JObj []"
  using assms by (auto simp: loadStats_def split: option.splits)

lemma saveStats_fields:
  "stats (saveStats w) = stats w"
  "setItemCalls (saveStats w) = setItemCalls w @ [JSON_stringify w (stats w)]"
  "storage (saveStats w) = (if setItemThrows w then storage w else Some (JSON_stringify w (stats w)))"
  by (simp_all add: saveStats_def Let_def)

lemma recordSeen_saves:
  "setItemCalls (recordSeen i w) = setItemCalls w @ [JSON_stringify w (stats (recordSeen i w))]"
  "storage (recordSeen i w)
     = (if setItemThrows w then storage w else Some (JSON_stringify w (stats (recordSeen i w))))"
  by (simp_all add: recordSeen_def saveStats_fields split: prod.splits statval.splits)

lemma recordResult_saves:
  "setItemCalls (recordResult i ph c w) = setItemCalls w @ [JSON_stringify w (stats (recordResult i ph c w))]"
  "storage (recordResult i ph c w)
     = (if setItemThrows w then storage w else Some (JSON_stringify w (stats (recordResult i ph c w))))"
  by (simp_all add: recordResult_def saveStats_fields Let_def split: prod.splits statval.splits)

lemma recordSeen_own:
  "stats w i = Some st \<Longrightarrow>
     stats (recordSeen i w) i = Some (st\<lparr>seen := seen st + 1, lastSeenAt := clock w\<rparr>)"
  by (simp add: recordSeen_def ensureStat_def saveStats_fields)

lemma loadStats_array:
  assumes "\<not> getItemThrows w" and "storage w = Some raw" and "raw \<noteq> []"
    and "JSON_parse w raw = Some (JArr vs)"
  shows "loadStats w = JArr vs"
  using assms by (simp add: loadStats_def)

text \<open>
  Claim C9, which the code does not meet. The stored text \<^verbatim>\<open>[1,2]\<close> is well-formed JSON
  for an array. An array is truthy and its \<^verbatim>\<open>typeof\<close> is \<^verbatim>\<open>"object"\<close>, so \<^verbatim>\<open>loadStats\<close>
  returns the array itself, not the empty object.
\<close>

theorem loadStats_returns_stored_array:
  "loadStats (demoWorld\<lparr>storage := Some ''[1,2]'',
                        JSON_parse := (\<lambda>s. if s = ''[1,2]'' then Some (JArr [JNum 1, JNum 2]) else None)\<rparr>)
     = JArr [JNum 1, JNum 2]
   \<and> JArr [JNum 1, JNum 2] \<noteq> JObj []"
  by (simp add: loadStats_def demoWorld_def)

section \<open>Properties of the answer options\<close>

lemma rand_ok_next: "rand_ok rs \<Longrightarrow> rand_ok (rng_next rs)"
  by (simp add: rand_ok_def rng_next_def)

lemma rand_index_le:
  assumes "rand_ok rs"
  shows "nat \<lfloor>rs 0 * real (Suc n)\<rfloor> \<le> n"
proof -
  have "0 \<le> rs 0" and "rs 0 < 1" using assms by (simp_all add: rand_ok_def)
  then have "rs 0 * real (Suc n) < real (Suc n)" by simp
  then have "\<lfloor>rs 0 * real (Suc n)\<rfloor> < int (Suc n)" by (simp add: floor_less_iff)
  then show ?thesis by simp
qed

lemma shuffleLoop_mset:
  "rand_ok rs \<Longrightarrow> n < length a \<Longrightarrow> mset (fst (shuffleLoop n a rs)) = mset a"
proof (induction n arbitrary: a rs)
  case 0
  then show ?case by simp
next
  case (Suc n)
  let ?j = "nat \<lfloor>rs 0 * real (Suc n + 1)\<rfloor>"
  have j: "?j < length a" using rand_index_le [OF Suc.prems(1), of "Suc n"] Suc.prems(2) by simp
  have sw: "mset (a[Suc n := a ! ?j, ?j := a ! Suc n]) = mset a"
    using mset_swap [OF j Suc.prems(2)] .
  have "mset (fst (shuffleLoop n (a[Suc n := a ! ?j, ?j := a ! Suc n]) (rng_next rs)))
        = mset (a[Suc n := a ! ?j, ?j := a ! Suc n])"
    using Suc.prems by (intro Suc.IH rand_ok_next) simp_all
  then show ?case using sw by (simp add: Let_def)
qed

lemma shuffleLoop_rand_ok: "rand_ok rs \<Longrightarrow> rand_ok (snd (shuffleLoop n a rs))"
proof (induction n arbitrary: a rs)
  case 0
  then show ?case by simp
next
  case (Suc n)
  then show ?case by (simp add: Let_def rand_ok_next)
qed

lemma shuffle_mset: "rand_ok rs \<Longrightarrow> mset (fst (shuffle xs rs)) = mset xs"
  by (cases xs) (simp_all add: shuffle_def shuffleLoop_mset)

lemma shuffle_rand_ok: "rand_ok rs \<Longrightarrow> rand_ok (snd (shuffle xs rs))"
  by (simp add: shuffle_def shuffleLoop_rand_ok)

lemma shuffle_set: "rand_ok rs \<Longrightarrow> set (fst (shuffle xs rs)) = set xs"
  using shuffle_mset [of rs xs] by (metis set_mset_mset)

lemma shuffle_length: "rand_ok rs \<Longrightarrow> length (fst (shuffle xs rs)) = length xs"
  using shuffle_mset [of rs xs] by (metis size_mset)











lemma byId_short:
  "byId [] = []" "byId [x] = [x]"
  "byId [x, y] = (if item_id x = item_id y then [y] else [x, y])"
  by (simp_all add: byId_def)

lemma take2_cases:
  obtains "xs = []" "take 2 xs = []"
  | x where "take 2 xs = [x]" "xs = [x]"
  | x y where "take 2 xs = [x, y]"
proof (cases xs)
  case Nil
  then show ?thesis using that(1) by simp
next
  case (Cons x ys)
  show ?thesis
  proof (cases ys)
    case Nil
    with Cons show ?thesis using that(2) [of x] by simp
  next
    case (Cons y zs)
    with \<open>xs = x # ys\<close> show ?thesis using that(3) [of x y] by (simp add: numeral_2_eq_2)
  qed
qed

lemma firstDistractors_props:
  assumes "rand_ok rs"
  shows "set (fst (firstDistractors pool it rs)) \<subseteq> set (pref pool it)"
    and "distinct (map item_id (fst (firstDistractors pool it rs)))"
    and "length (fst (firstDistractors pool it rs)) \<le> 2"
    and "fst (firstDistractors pool it rs) = [] \<longleftrightarrow> pref pool it = []"
    and "rand_ok (snd (firstDistractors pool it rs))"
proof -
  let ?sh = "fst (shuffle (pref pool it) rs)"
  have f: "fst (firstDistractors pool it rs) = take 2 (byId (take 2 ?sh))"
    by (simp add: firstDistractors_def case_prod_beta)
  have sub: "set (take 2 ?sh) \<subseteq> set (pref pool it)"
    using set_take_subset [of 2 ?sh] shuffle_set [OF assms, of "pref pool it"] by simp
  have nil: "?sh = [] \<longleftrightarrow> pref pool it = []"
    using shuffle_length [OF assms, of "pref pool it"] by (metis length_0_conv)
  show "rand_ok (snd (firstDistractors pool it rs))"
    using shuffle_rand_ok [OF assms, of "pref pool it"]
    by (simp add: firstDistractors_def case_prod_beta)
  show "set (fst (firstDistractors pool it rs)) \<subseteq> set (pref pool it)"
    using sub by (cases ?sh rule: take2_cases) (auto simp: f byId_short split: if_splits)
  show "distinct (map item_id (fst (firstDistractors pool it rs)))"
    by (cases ?sh rule: take2_cases) (auto simp: f byId_short)
  show "length (fst (firstDistractors pool it rs)) \<le> 2"
    by (simp add: f)
  show "fst (firstDistractors pool it rs) = [] \<longleftrightarrow> pref pool it = []"
    using nil by (cases ?sh rule: take2_cases) (auto simp: f byId_short)
qed



lemma distractors_split:
  "fst (distractors pool it rs) = fst (firstDistractors pool it rs) @ topUp pool it rs"
  by (simp add: distractors_def topUp_def case_prod_beta)
















lemma forced_distractor:
  assumes "rand_ok rs"
  shows "katze \<in> set (fst (distractors [hund, katze, tisch, stuhl] hund rs))"
proof -
  have p: "pref [hund, katze, tisch, stuhl] hund = [katze, katze]"
    by (simp add: pref_def diffArticle_def candidates_def sameTag_def hund_def katze_def
        tisch_def stuhl_def)
  let ?fds = "fst (firstDistractors [hund, katze, tisch, stuhl] hund rs)"
  have "set ?fds \<subseteq> {katze}" and "?fds \<noteq> []"
    using firstDistractors_props(1,4) [OF assms, of "[hund, katze, tisch, stuhl]" hund]
    by (simp_all add: p)
  then have "katze \<in> set ?fds" by (cases ?fds) auto
  then show ?thesis by (simp add: distractors_split)
qed

end
